theory Spec2Isabelle
  imports Complex_Main
begin

section \<open>Double-precision arithmetic\<close>

text \<open>
  Every number of the source is an IEEE 754 double, and every arithmetic operation is
  the exact operation followed by rounding to the nearest double, ties to even. A double
  is modelled as the real number it denotes, and \<open>fl53\<close> is the rounding to 53
  significant bits. The exponent range is not bounded: there is no overflow and there
  are no subnormal numbers, and no infinity or NaN.

  \<open>pow2_below x\<close> is the largest power of two not above a positive \<open>x\<close>, found by
  doubling from 1 or by halving from 1; the spacing of the doubles around \<open>x\<close> is that
  power divided by \<open>2 ^ 52\<close>.
\<close>

function pow2_up :: "real \<Rightarrow> real \<Rightarrow> real" where
  "pow2_up p x = (if 0 < p \<and> 2 * p \<le> x then pow2_up (2 * p) x else p)"
  by pat_completeness auto
termination
proof (relation "measure (\<lambda>(p, x). nat \<lfloor>x / p\<rfloor>)")
  show "wf (measure (\<lambda>(p, x). nat \<lfloor>x / p\<rfloor>))" by simp
next
  fix p x :: real
  assume a: "0 < p \<and> 2 * p \<le> x"
  define y where "y = x / p"
  have y: "2 \<le> y" using a by (simp add: y_def le_divide_eq)
  have h: "x / (2 * p) = y / 2" by (simp add: y_def)
  have "\<lfloor>y / 2\<rfloor> < \<lfloor>y\<rfloor>" using y by linarith
  moreover have "0 < \<lfloor>y\<rfloor>" using y by linarith
  ultimately have "nat \<lfloor>x / (2 * p)\<rfloor> < nat \<lfloor>x / p\<rfloor>"
    unfolding h y_def[symmetric] by linarith
  then show "((2 * p, x), (p, x)) \<in> measure (\<lambda>(p, x). nat \<lfloor>x / p\<rfloor>)"
    by simp
qed

function pow2_down :: "real \<Rightarrow> real \<Rightarrow> real" where
  "pow2_down p x = (if 0 < x \<and> x < p then pow2_down (p / 2) x else p)"
  by pat_completeness auto
termination
proof (relation "measure (\<lambda>(p, x). nat \<lceil>p / x\<rceil>)")
  show "wf (measure (\<lambda>(p, x). nat \<lceil>p / x\<rceil>))" by simp
next
  fix p x :: real
  assume a: "0 < x \<and> x < p"
  define y where "y = p / x"
  have y: "1 < y" using a by (simp add: y_def)
  have h: "p / 2 / x = y / 2" by (simp add: y_def)
  have two: "2 \<le> \<lceil>y\<rceil>" using y by linarith
  have "y / 2 \<le> real_of_int \<lceil>y\<rceil> / 2" by (simp add: le_of_int_ceiling)
  also have "\<dots> \<le> real_of_int (\<lceil>y\<rceil> - 1)" using two by simp
  finally have "\<lceil>y / 2\<rceil> \<le> \<lceil>y\<rceil> - 1" by (simp only: ceiling_le_iff)
  then have "nat \<lceil>p / 2 / x\<rceil> < nat \<lceil>p / x\<rceil>"
    unfolding h y_def[symmetric] using two by linarith
  then show "((p / 2, x), (p, x)) \<in> measure (\<lambda>(p, x). nat \<lceil>p / x\<rceil>)"
    by simp
qed

declare pow2_up.simps [simp del]
declare pow2_down.simps [simp del]

definition pow2_below :: "real \<Rightarrow> real" where
  "pow2_below x = (if 1 \<le> x then pow2_up 1 x else pow2_down 1 x)"

text \<open>Rounding to the nearest integer, ties to the even one.\<close>

definition round_half_even :: "real \<Rightarrow> int" where
  "round_half_even y =
     (let f = \<lfloor>y\<rfloor>; d = y - real_of_int f
      in if d < 1 / 2 then f
         else if 1 / 2 < d then f + 1
         else if even f then f else f + 1)"

definition fl53_pos :: "real \<Rightarrow> real" where
  "fl53_pos x = (let q = pow2_below x / 2 ^ 52 in real_of_int (round_half_even (x / q)) * q)"

definition fl53 :: "real \<Rightarrow> real" where
  "fl53 x = (if x = 0 then 0 else if 0 < x then fl53_pos x else - fl53_pos (- x))"

section \<open>Retry orchestrator (utils/apiUtils.ts)\<close>

subsection \<open>Errors thrown by an attempt\<close>

text \<open>
  What the promise of the attempt thunk rejects with is any JavaScript value. The catch
  block reads three things of it: whether it is a \<^verbatim>\<open>DOMException\<close>, its \<^verbatim>\<open>name\<close> and
  its \<^verbatim>\<open>message\<close>. \<open>Nullish\<close> is \<^verbatim>\<open>null\<close> or \<^verbatim>\<open>undefined\<close>, of which no property can be
  read. Any other value is an \<open>Object\<close> (a primitive behaves as an object without
  these properties). Its \<open>message\<close> is
  \<^item> \<open>Missing\<close>: \<^verbatim>\<open>undefined\<close> or \<^verbatim>\<open>null\<close>, where the optional chaining
    \<^verbatim>\<open>message?.includes\<close> yields \<^verbatim>\<open>undefined\<close>;
  \<^item> \<open>Text m\<close>: the string \<open>m\<close>;
  \<^item> \<open>NoIncludes\<close>: a value with no \<^verbatim>\<open>includes\<close> method (a number, a boolean, a plain
    object), on which the call throws a \<^verbatim>\<open>TypeError\<close>;
  \<^item> \<open>Answers b\<close>: a value other than a string with an \<^verbatim>\<open>includes\<close> method (an array),
    \<open>b\<close> being the truth value of what the call returns.
  Values whose property reads or methods run code of their own are not modelled.
\<close>

datatype message_value = Missing | Text string | NoIncludes | Answers bool

record js_error =
  isDOMException :: bool
  name :: "string option"
  message :: message_value

datatype rejection = Nullish | Object js_error

text \<open>What \<^verbatim>\<open>retryWithBackoff\<close> itself rejects with: \<^verbatim>\<open>undefined\<close> when \<^verbatim>\<open>lastError\<close> was
  never assigned, the value the thunk rejected with, or the \<^verbatim>\<open>TypeError\<close> raised by the
  catch block's own property access or method call.\<close>

datatype thrown = ThrownUndefined | Thrown rejection | RaisedTypeError

text \<open>\<^verbatim>\<open>String.prototype.includes\<close>: the pattern occurs as a contiguous substring.\<close>

fun startsWith :: "string \<Rightarrow> string \<Rightarrow> bool" where
  "startsWith s [] = True"
| "startsWith [] (c # p) = False"
| "startsWith (x # s) (c # p) = (x = c \<and> startsWith s p)"

fun includes_str :: "string \<Rightarrow> string \<Rightarrow> bool" where
  "includes_str [] p = (p = [])"
| "includes_str (x # s) p = (startsWith (x # s) p \<or> includes_str s p)"

text \<open>\<^verbatim>\<open>error instanceof DOMException && error.name === 'AbortError'\<close>, on an object and
  on any rejection (\<^verbatim>\<open>null instanceof DOMException\<close> is false).\<close>

definition isAbortError :: "js_error \<Rightarrow> bool" where
  "isAbortError error = (isDOMException error \<and> name error = Some ''AbortError'')"

fun is_abort :: "rejection \<Rightarrow> bool" where
  "is_abort Nullish = False"
| "is_abort (Object error) = isAbortError error"

text \<open>\<^verbatim>\<open>message?.includes('Model overloaded')\<close> as a truth value; \<open>None\<close> when the call
  throws a \<^verbatim>\<open>TypeError\<close>.\<close>

fun includes_sentinel :: "message_value \<Rightarrow> bool option" where
  "includes_sentinel Missing = Some False"
| "includes_sentinel (Text m) = Some (includes_str m ''Model overloaded'')"
| "includes_sentinel NoIncludes = None"
| "includes_sentinel (Answers b) = Some b"

definition isRetryableError :: "js_error \<Rightarrow> bool" where
  "isRetryableError lastError = (includes_sentinel (message lastError) = Some True)"

text \<open>\<^verbatim>\<open>lastError.message?.includes('Model overloaded')\<close> on any rejection: reading
  \<^verbatim>\<open>message\<close> of \<^verbatim>\<open>null\<close> or \<^verbatim>\<open>undefined\<close> throws a \<^verbatim>\<open>TypeError\<close>.\<close>

fun message_includes :: "rejection \<Rightarrow> bool option" where
  "message_includes Nullish = None"
| "message_includes (Object lastError) = includes_sentinel (message lastError)"

subsection \<open>The environment of a run\<close>

text \<open>
  The source is asynchronous and effectful. The state of everything outside the
  orchestrator (the thunk's closure, the clock, the cancellation token, the random
  source) is a world \<open>'w\<close>, threaded through the run:
  \<^item> \<open>fn\<close> is one call \<^verbatim>\<open>await fn()\<close> of the attempt thunk, from the call until its
    promise settles: \<open>Inr v\<close> when it resolves with \<open>v\<close>, \<open>Inl e\<close> when it rejects;
  \<^item> \<open>random\<close> is one call of \<^verbatim>\<open>Math.random()\<close>;
  \<^item> \<open>sleep ms\<close> is what happens to the world while
    \<^verbatim>\<open>await new Promise(resolve => setTimeout(resolve, ms))\<close> is pending.
\<close>

record ('w, 'a) env =
  fn :: "'w \<Rightarrow> (rejection + 'a) \<times> 'w"
  random :: "'w \<Rightarrow> real \<times> 'w"
  sleep :: "real \<Rightarrow> 'w \<Rightarrow> 'w"

text \<open>The observable steps of a run, in order: the thunk invoked for attempt \<open>n\<close>, and
  the backoff wait of \<open>ms\<close> milliseconds performed after attempt \<open>n\<close> failed.\<close>

datatype event = Invoked nat | Waited nat real

subsection \<open>The retry loop\<close>

text \<open>
  \<^verbatim>\<open>for (let attempt = 1; attempt <= maxRetries; attempt++) { try { return await fn(); }
  catch (error) { ... } } throw lastError!;\<close>
  The result is the settled promise (\<open>Inl\<close> rejected, \<open>Inr\<close> resolved), the final world
  and the steps performed from this attempt on. The counter \<open>attempt\<close> takes the values
  1, 2, 3, ...; \<open>maxRetries\<close>, \<open>baseDelay\<close> and \<open>maxJitter\<close> are numbers, not necessarily
  integers. \<^verbatim>\<open>Math.pow(2, attempt - 1)\<close> is the exact power of two.
\<close>

function retryLoop ::
  "('w, 'a) env \<Rightarrow> real \<Rightarrow> real \<Rightarrow> real \<Rightarrow> nat \<Rightarrow> thrown \<Rightarrow> 'w
     \<Rightarrow> (thrown + 'a) \<times> 'w \<times> event list" where
  "retryLoop E maxRetries baseDelay maxJitter attempt lastError w =
     (if real attempt \<le> maxRetries then
        (case fn E w of
           (Inr v, w1) \<Rightarrow> (Inr v, w1, [Invoked attempt])
         | (Inl error, w1) \<Rightarrow>
             if is_abort error then (Inl (Thrown error), w1, [Invoked attempt])
             else
               (case message_includes error of
                  None \<Rightarrow> (Inl RaisedTypeError, w1, [Invoked attempt])
                | Some isRetryable \<Rightarrow>
                    if \<not> isRetryable \<or> real attempt = maxRetries
                      then (Inl (Thrown error), w1, [Invoked attempt])
                    else
                      (let delay = fl53 (baseDelay * 2 ^ (attempt - 1));
                           (r, w2) = random E w1;
                           jitter = fl53 (r * maxJitter);
                           ms = fl53 (delay + jitter);
                           w3 = sleep E ms w2;
                           (out, w4, evs) =
                             retryLoop E maxRetries baseDelay maxJitter (attempt + 1)
                               (Thrown error) w3
                       in (out, w4, Invoked attempt # Waited attempt ms # evs))))
      else (Inl lastError, w, []))"
  by pat_completeness auto
termination
proof (relation "measure (\<lambda>(E, maxRetries, baseDelay, maxJitter, attempt, lastError, w).
          nat (\<lfloor>maxRetries\<rfloor> + 1 - int attempt))", goal_cases)
  case 1
  show ?case by simp
next
  case (2 E maxRetries baseDelay maxJitter attempt lastError w)
  from 2(1) have "int attempt \<le> \<lfloor>maxRetries\<rfloor>" by (simp add: le_floor_iff)
  then show ?case by simp
qed

declare retryLoop.simps [simp del]

definition retryWithBackoff ::
  "('w, 'a) env \<Rightarrow> real \<Rightarrow> real \<Rightarrow> real \<Rightarrow> 'w \<Rightarrow> (thrown + 'a) \<times> 'w \<times> event list" where
  "retryWithBackoff E maxRetries baseDelay maxJitter w =
     retryLoop E maxRetries baseDelay maxJitter 1 ThrownUndefined w"

text \<open>
  Readings of the catch block, for stating its behaviour. The loop goes on after a
  rejection exactly when it is no abort and its message contains the sentinel (and
  attempts remain). Otherwise it rejects with the value itself, or with the
  \<^verbatim>\<open>TypeError\<close> where the message cannot be tested. The number passed to \<^verbatim>\<open>setTimeout\<close>
  after attempt \<open>n\<close> with the draw \<open>r\<close> is \<open>timeout_arg\<close>.
\<close>

definition retried :: "rejection \<Rightarrow> bool" where
  "retried error = (\<not> is_abort error \<and> message_includes error = Some True)"


definition timeout_arg :: "real \<Rightarrow> real \<Rightarrow> nat \<Rightarrow> real \<Rightarrow> real" where
  "timeout_arg baseDelay maxJitter n r =
     fl53 (fl53 (baseDelay * 2 ^ (n - 1)) + fl53 (r * maxJitter))"







subsection \<open>The mocked generation request and the browser it runs in\<close>

text \<open>
  The concrete world of the application: a clock in milliseconds, the one
  \<^verbatim>\<open>AbortController\<close> of the generation flow (\<open>abort_at\<close> is the instant at which the
  caller raises it, if ever) and the results of the coming \<^verbatim>\<open>Math.random()\<close> calls
  (\<open>0\<close> once the list is used up).
\<close>

record world =
  now :: real
  abort_at :: "real option"
  randoms :: "real list"

definition signal_aborted :: "world \<Rightarrow> bool" where
  "signal_aborted w = (case abort_at w of None \<Rightarrow> False | Some t \<Rightarrow> t \<le> now w)"

definition Math_random :: "world \<Rightarrow> real \<times> world" where
  "Math_random w = (case randoms w of [] \<Rightarrow> (0, w) | r # rs \<Rightarrow> (r, w\<lparr>randoms := rs\<rparr>))"

text \<open>\<^verbatim>\<open>await new Promise(resolve => setTimeout(resolve, ms))\<close>: the timer has no abort
  listener, so the only thing that ends the wait is the timer itself.\<close>

definition setTimeout_wait :: "real \<Rightarrow> world \<Rightarrow> world" where
  "setTimeout_wait ms w = w\<lparr>now := now w + max 0 ms\<rparr>"

record ApiRequest =
  imageDataUrl :: string
  prompt :: string
  style :: string

text \<open>The response; its \<open>id\<close> is the text built from \<^verbatim>\<open>Date.now()\<close> and one random draw,
  kept here as that pair, and the time stamp is the clock value.\<close>

record ApiResponse =
  id_parts :: "real \<times> real"
  imageUrl :: "string option"
  res_prompt :: string
  res_style :: string
  createdAt :: real

definition MOCK_IMAGES :: "string list" where
  "MOCK_IMAGES =
    [''https://images.pexels.com/photos/1167021/pexels-photo-1167021.jpeg?auto=compress&cs=tinysrgb&w=800'',
     ''https://images.pexels.com/photos/2310641/pexels-photo-2310641.jpeg?auto=compress&cs=tinysrgb&w=800'',
     ''https://images.pexels.com/photos/3861972/pexels-photo-3861972.jpeg?auto=compress&cs=tinysrgb&w=800'',
     ''https://images.pexels.com/photos/1108572/pexels-photo-1108572.jpeg?auto=compress&cs=tinysrgb&w=800'',
     ''https://images.pexels.com/photos/2346091/pexels-photo-2346091.jpeg?auto=compress&cs=tinysrgb&w=800'']"

definition overloaded_error :: js_error where
  "overloaded_error =
     \<lparr>isDOMException = False, name = None,
      message = Text ''Model overloaded. Please try again.''\<rparr>"

definition aborted_error :: js_error where
  "aborted_error =
     \<lparr>isDOMException = True, name = Some ''AbortError'', message = Text ''Request aborted''\<rparr>"

text \<open>
  \<^verbatim>\<open>mockApiCall(request, signal)\<close>, from the call until the promise settles. The timer
  fires after \<open>delay\<close>. The abort listener is added when the call starts, so it runs
  only for an abort event dispatched after that and before the timer fires; a signal
  that is aborted already dispatches no further event. \<open>has_signal\<close> says whether the
  optional \<^verbatim>\<open>signal\<close> argument was passed. The literal \<^verbatim>\<open>0.2\<close> is the double nearest to
  one fifth.
\<close>

definition mockApiCall ::
  "ApiRequest \<Rightarrow> bool \<Rightarrow> world \<Rightarrow> (rejection + ApiResponse) \<times> world" where
  "mockApiCall request has_signal w =
     (let (r, w1) = Math_random w;
          delay = fl53 (1000 + fl53 (r * 1000));
          listener_runs_at =
            (case abort_at w1 of
               None \<Rightarrow> None
             | Some t \<Rightarrow>
                 if has_signal \<and> now w1 < t \<and> t < now w1 + delay then Some t else None)
      in case listener_runs_at of
           Some t \<Rightarrow> (Inl (Object aborted_error), w1\<lparr>now := t\<rparr>)
         | None \<Rightarrow>
           (let w2 = w1\<lparr>now := now w1 + delay\<rparr>;
                (r2, w3) = Math_random w2
            in if r2 < fl53 (2 / 10) then (Inl (Object overloaded_error), w3)
               else
                 (let (r3, w4) = Math_random w3;
                      (r4, w5) = Math_random w4;
                      i = nat \<lfloor>fl53 (r4 * real (length MOCK_IMAGES))\<rfloor>
                  in (Inr \<lparr>id_parts = (now w3, r3),
                            imageUrl = (if i < length MOCK_IMAGES
                                        then Some (MOCK_IMAGES ! i) else None),
                            res_prompt = prompt request,
                            res_style = style request,
                            createdAt = now w3\<rparr>, w5))))"

text \<open>The run the application starts: the thunk calls \<^verbatim>\<open>mockApiCall\<close> with the
  controller's signal.\<close>

definition browser :: "ApiRequest \<Rightarrow> (world, ApiResponse) env" where
  "browser request =
     \<lparr>fn = mockApiCall request True, random = Math_random, sleep = setTimeout_wait\<rparr>"

subsection \<open>Test doubles\<close>

text \<open>
  A thunk that plays a script, in a world that counts the calls made, holds the coming
  random draws and adds up the time waited. The \<open>k\<close>-th call settles as the \<open>k\<close>-th
  entry of the script, and as an overload error once the script is used up; a draw is
  the head of the list, and \<open>0\<close> once the list is used up or where the head is not in
  \<open>[0, 1)\<close>.
\<close>

record script_world =
  calls :: nat
  draws :: "real list"
  waited :: real

definition scripted :: "(rejection + 'a) list \<Rightarrow> (script_world, 'a) env" where
  "scripted outcomes =
     \<lparr>fn = (\<lambda>u. (case drop (calls u) outcomes of
                     [] \<Rightarrow> Inl (Object overloaded_error)
                   | x # xs \<Rightarrow> x,
                   u\<lparr>calls := Suc (calls u)\<rparr>)),
      random = (\<lambda>u. case draws u of
                       [] \<Rightarrow> (0, u)
                     | r # rs \<Rightarrow> (if 0 \<le> r \<and> r < 1 then r else 0, u\<lparr>draws := rs\<rparr>)),
      sleep = (\<lambda>ms u. u\<lparr>waited := waited u + ms\<rparr>)\<rparr>"

definition start :: "real list \<Rightarrow> script_world" where
  "start rs = \<lparr>calls = 0, draws = rs, waited = 0\<rparr>"


definition overloaded_abort_error :: js_error where
  "overloaded_abort_error =
     \<lparr>isDOMException = True, name = Some ''AbortError'',
      message = Text ''Model overloaded while aborting''\<rparr>"


definition request0 :: ApiRequest where
  "request0 = \<lparr>imageDataUrl = ''data:'', prompt = ''warm portrait'', style = ''Editorial''\<rparr>"

section \<open>Image preparation (utils/imageUtils.ts)\<close>

definition MAX_FILE_SIZE :: nat where
  "MAX_FILE_SIZE = 10 * 1024 * 1024"


record image_file =
  file_type :: string
  file_size :: nat

text \<open>\<^verbatim>\<open>file.type.match(/^image\/(png|jpeg|jpg)$/)\<close>: the whole text is \<^verbatim>\<open>image/\<close> followed by
  one of the three alternatives.\<close>

definition matches_image_type :: "string \<Rightarrow> bool" where
  "matches_image_type t = (t \<in> set (map (\<lambda>alt. ''image/'' @ alt) [''png'', ''jpeg'', ''jpg'']))"

definition validateImageFile :: "image_file \<Rightarrow> string option" where
  "validateImageFile f =
     (if \<not> matches_image_type (file_type f) then Some ''Please upload a PNG or JPG file''
      else if file_size f > MAX_FILE_SIZE then Some ''File size must be less than 10MB''
      else None)"




section \<open>History store (utils/storageUtils.ts)\<close>

record Generation =
  id_str :: string
  gen_imageUrl :: string
  gen_prompt :: string
  gen_style :: string
  gen_createdAt :: string

text \<open>Values as \<^verbatim>\<open>JSON.parse\<close> yields them.\<close>

datatype jsval =
    JNull
  | JBool bool
  | JNum real
  | JStr string
  | JArr "jsval list"
  | JObj "(string \<times> jsval) list"

text \<open>
  A text held by \<^verbatim>\<open>localStorage\<close>, told apart by what \<^verbatim>\<open>JSON.parse\<close> makes of it: the
  empty text, a non-empty text that does not parse, or the serialisation of a value.
\<close>

datatype stored_text = EmptyText | Malformed | Stringified jsval

datatype js_exn = SecurityError | QuotaExceededError | SyntaxError | TypeError

text \<open>
  The storage layer: the text under the key \<^verbatim>\<open>modelia_history\<close> (\<open>None\<close> when the key is
  absent), whether access to the storage is refused (every operation throws), whether
  the quota is used up (writes throw), and what \<^verbatim>\<open>console.error\<close> has printed.
\<close>

record store =
  item :: "stored_text option"
  denied :: bool
  full :: bool
  console :: "string list"

definition MAX_HISTORY_ITEMS :: nat where
  "MAX_HISTORY_ITEMS = 5"

definition getItem :: "store \<Rightarrow> (js_exn + stored_text option) \<times> store" where
  "getItem s = (if denied s then (Inl SecurityError, s) else (Inr (item s), s))"

definition setItem :: "stored_text \<Rightarrow> store \<Rightarrow> (js_exn + unit) \<times> store" where
  "setItem t s =
     (if denied s then (Inl SecurityError, s)
      else if full s then (Inl QuotaExceededError, s)
      else (Inr (), s\<lparr>item := Some t\<rparr>))"

definition removeItem :: "store \<Rightarrow> (js_exn + unit) \<times> store" where
  "removeItem s = (if denied s then (Inl SecurityError, s) else (Inr (), s\<lparr>item := None\<rparr>))"

definition console_error :: "string \<Rightarrow> store \<Rightarrow> store" where
  "console_error msg s = s\<lparr>console := console s @ [msg]\<rparr>"

definition JSON_parse :: "stored_text \<Rightarrow> js_exn + jsval" where
  "JSON_parse t = (case t of Stringified v \<Rightarrow> Inr v | _ \<Rightarrow> Inl SyntaxError)"

definition JSON_stringify :: "jsval \<Rightarrow> stored_text" where
  "JSON_stringify v = Stringified v"

definition toJson :: "Generation \<Rightarrow> jsval" where
  "toJson g =
     JObj [(''id'', JStr (id_str g)), (''imageUrl'', JStr (gen_imageUrl g)),
           (''prompt'', JStr (gen_prompt g)), (''style'', JStr (gen_style g)),
           (''createdAt'', JStr (gen_createdAt g))]"

text \<open>\<^verbatim>\<open>getHistory\<close>: the \<^verbatim>\<open>try\<close> block, then the function with its \<^verbatim>\<open>catch\<close>.\<close>

definition getHistory_try :: "store \<Rightarrow> (js_exn + jsval) \<times> store" where
  "getHistory_try s =
     (case getItem s of
        (Inl e, s1) \<Rightarrow> (Inl e, s1)
      | (Inr stored, s1) \<Rightarrow>
          (case stored of
             None \<Rightarrow> (Inr (JArr []), s1)
           | Some t \<Rightarrow> if t = EmptyText then (Inr (JArr []), s1) else (JSON_parse t, s1)))"

definition getHistory :: "store \<Rightarrow> (js_exn + jsval) \<times> store" where
  "getHistory s =
     (case getHistory_try s of
        (Inr v, s1) \<Rightarrow> (Inr v, s1)
      | (Inl error, s1) \<Rightarrow>
          (Inr (JArr []), console_error ''Failed to load history from localStorage:'' s1))"

text \<open>
  \<^verbatim>\<open>item => item.id !== id\<close> on one element: reading a property of \<^verbatim>\<open>null\<close> throws, an
  object yields its \<^verbatim>\<open>id\<close> property, any other value has none.
\<close>

fun id_differs :: "string \<Rightarrow> jsval \<Rightarrow> js_exn + bool" where
  "id_differs i JNull = Inl TypeError"
| "id_differs i (JObj props) = Inr (map_of props ''id'' \<noteq> Some (JStr i))"
| "id_differs i v = Inr True"

fun filter_items :: "string \<Rightarrow> jsval list \<Rightarrow> js_exn + jsval list" where
  "filter_items i [] = Inr []"
| "filter_items i (x # xs) =
     (case id_differs i x of
        Inl e \<Rightarrow> Inl e
      | Inr keep \<Rightarrow>
          (case filter_items i xs of
             Inl e \<Rightarrow> Inl e
           | Inr ys \<Rightarrow> Inr (if keep then x # ys else ys)))"

text \<open>\<^verbatim>\<open>history.filter(item => item.id !== id)\<close>: only an array has a \<^verbatim>\<open>filter\<close> method;
  on any other parsed value the call throws.\<close>

definition filter_by_id :: "string \<Rightarrow> jsval \<Rightarrow> js_exn + jsval list" where
  "filter_by_id i history =
     (case history of JArr xs \<Rightarrow> filter_items i xs | _ \<Rightarrow> Inl TypeError)"

definition saveGeneration_try :: "Generation \<Rightarrow> store \<Rightarrow> (js_exn + unit) \<times> store" where
  "saveGeneration_try generation s =
     (case getHistory s of
        (Inl e, s1) \<Rightarrow> (Inl e, s1)
      | (Inr existingHistory, s1) \<Rightarrow>
          (case filter_by_id (id_str generation) existingHistory of
             Inl e \<Rightarrow> (Inl e, s1)
           | Inr filteredHistory \<Rightarrow>
               (let newHistory =
                      toJson generation # take (MAX_HISTORY_ITEMS - 1) filteredHistory
                in setItem (JSON_stringify (JArr newHistory)) s1)))"

definition saveGeneration :: "Generation \<Rightarrow> store \<Rightarrow> (js_exn + unit) \<times> store" where
  "saveGeneration generation s =
     (case saveGeneration_try generation s of
        (Inr u, s1) \<Rightarrow> (Inr u, s1)
      | (Inl error, s1) \<Rightarrow>
          (Inr (), console_error ''Failed to save generation to localStorage:'' s1))"

definition clearHistory :: "store \<Rightarrow> (js_exn + unit) \<times> store" where
  "clearHistory s =
     (case removeItem s of
        (Inr u, s1) \<Rightarrow> (Inr u, s1)
      | (Inl error, s1) \<Rightarrow> (Inr (), console_error ''Failed to clear history:'' s1))"

definition removeFromHistory_try :: "string \<Rightarrow> store \<Rightarrow> (js_exn + unit) \<times> store" where
  "removeFromHistory_try i s =
     (case getHistory s of
        (Inl e, s1) \<Rightarrow> (Inl e, s1)
      | (Inr history, s1) \<Rightarrow>
          (case filter_by_id i history of
             Inl e \<Rightarrow> (Inl e, s1)
           | Inr filteredHistory \<Rightarrow> setItem (JSON_stringify (JArr filteredHistory)) s1))"

definition removeFromHistory :: "string \<Rightarrow> store \<Rightarrow> (js_exn + unit) \<times> store" where
  "removeFromHistory i s =
     (case removeFromHistory_try i s of
        (Inr u, s1) \<Rightarrow> (Inr u, s1)
      | (Inl error, s1) \<Rightarrow>
          (Inr (), console_error ''Failed to remove item from history:'' s1))"

text \<open>A caller recording several generations one after the other; a call that threw
  would end the sequence.\<close>

fun saveGenerations :: "Generation list \<Rightarrow> store \<Rightarrow> (js_exn + unit) \<times> store" where
  "saveGenerations [] s = (Inr (), s)"
| "saveGenerations (g # gs) s =
     (case saveGeneration g s of
        (Inl e, s1) \<Rightarrow> (Inl e, s1)
      | (Inr u, s1) \<Rightarrow> saveGenerations gs s1)"

text \<open>
  The store holds the history \<open>h\<close>: the key carries the serialised array of the
  entries of \<open>h\<close>, or \<open>h\<close> is empty and the key is absent or carries a text that does
  not parse.
\<close>

definition holds_history :: "store \<Rightarrow> Generation list \<Rightarrow> bool" where
  "holds_history s h =
     (case item s of
        None \<Rightarrow> h = []
      | Some EmptyText \<Rightarrow> h = []
      | Some Malformed \<Rightarrow> h = []
      | Some (Stringified v) \<Rightarrow> v = JArr (map toJson h))"

text \<open>
  The specification's \<open>record\<close> on a history, in its own words: prepend the entry after
  removing any existing entry with the same identifier, then truncate to the first 5.
\<close>

definition spec_record :: "Generation \<Rightarrow> Generation list \<Rightarrow> Generation list" where
  "spec_record entry h = take 5 (entry # filter (\<lambda>x. id_str x \<noteq> id_str entry) h)"

subsection \<open>Sample data\<close>

definition sample :: "string \<Rightarrow> string \<Rightarrow> Generation" where
  "sample i p =
     \<lparr>id_str = i, gen_imageUrl = ''https://example.test/'' @ i, gen_prompt = p,
      gen_style = ''Editorial'', gen_createdAt = ''2025-01-01T00:00:00.000Z''\<rparr>"

definition empty_store :: store where
  "empty_store = \<lparr>item = None, denied = False, full = False, console = []\<rparr>"

section \<open>Properties of double rounding\<close>

subsection \<open>The power of two below a number\<close>

lemma pow2_up_props:
  "0 < p \<Longrightarrow> p \<le> x \<Longrightarrow>
     pow2_up p x \<le> x \<and> x < 2 * pow2_up p x \<and> (\<exists>k::nat. pow2_up p x = p * 2 ^ k)"
proof (induction p x rule: pow2_up.induct)
  case (1 p x)
  show ?case
  proof (cases "2 * p \<le> x")
    case True
    then have step: "pow2_up p x = pow2_up (2 * p) x"
      using "1.prems" by (subst pow2_up.simps) simp
    have IH: "pow2_up (2 * p) x \<le> x \<and> x < 2 * pow2_up (2 * p) x
                \<and> (\<exists>k::nat. pow2_up (2 * p) x = 2 * p * 2 ^ k)"
      using "1.IH" "1.prems" True by simp
    then obtain k :: nat where "pow2_up (2 * p) x = 2 * p * 2 ^ k" by blast
    then have "pow2_up (2 * p) x = p * 2 ^ Suc k" by simp
    then show ?thesis using IH unfolding step by blast
  next
    case False
    then have stop: "pow2_up p x = p" by (subst pow2_up.simps) simp
    have "p = p * 2 ^ (0::nat)" by simp
    then show ?thesis using False "1.prems" unfolding stop by (intro conjI exI[of _ "0::nat"]) simp_all
  qed
qed

lemma pow2_down_props:
  "0 < x \<Longrightarrow> 0 < p \<Longrightarrow> x < 2 * p \<Longrightarrow>
     pow2_down p x \<le> x \<and> x < 2 * pow2_down p x \<and> (\<exists>k::nat. pow2_down p x = p / 2 ^ k)"
proof (induction p x rule: pow2_down.induct)
  case (1 p x)
  show ?case
  proof (cases "x < p")
    case True
    then have step: "pow2_down p x = pow2_down (p / 2) x"
      using "1.prems" by (subst pow2_down.simps) simp
    have IH: "pow2_down (p / 2) x \<le> x \<and> x < 2 * pow2_down (p / 2) x
                \<and> (\<exists>k::nat. pow2_down (p / 2) x = p / 2 / 2 ^ k)"
      using "1.IH" "1.prems" True by simp
    then obtain k :: nat where "pow2_down (p / 2) x = p / 2 / 2 ^ k" by blast
    then have "pow2_down (p / 2) x = p / 2 ^ Suc k" by simp
    then show ?thesis using IH unfolding step by blast
  next
    case False
    then have stop: "pow2_down p x = p" by (subst pow2_down.simps) simp
    show ?thesis using False "1.prems" unfolding stop by (intro conjI exI[of _ "0::nat"]) simp_all
  qed
qed

text \<open>The binade of a positive real: the power of two at or below it.\<close>

lemma pow2_below_bounds:
  assumes "0 < x"
  shows "pow2_below x \<le> x" and "x < 2 * pow2_below x" and "0 < pow2_below x"
    and "\<exists>i::int. pow2_below x = 2 powr real_of_int i"
proof -
  have *: "pow2_below x \<le> x \<and> x < 2 * pow2_below x
           \<and> (\<exists>i::int. pow2_below x = 2 powr real_of_int i)"
  proof (cases "1 \<le> x")
    case True
    from pow2_up_props[of 1 x] True obtain k :: nat
      where b: "pow2_up 1 x \<le> x" "x < 2 * pow2_up 1 x" and k: "pow2_up 1 x = 2 ^ k" by auto
    have "pow2_up 1 x = 2 powr real_of_int (int k)" by (simp add: k powr_realpow)
    then have "\<exists>i::int. pow2_up 1 x = 2 powr real_of_int i" by (rule exI)
    then show ?thesis using True b by (simp add: pow2_below_def)
  next
    case False
    from pow2_down_props[of x 1] False assms obtain k :: nat
      where b: "pow2_down 1 x \<le> x" "x < 2 * pow2_down 1 x" and k: "pow2_down 1 x = 1 / 2 ^ k"
      by auto
    have "pow2_down 1 x = 2 powr real_of_int (- int k)"
      by (simp add: k powr_minus powr_realpow divide_inverse)
    then have "\<exists>i::int. pow2_down 1 x = 2 powr real_of_int i" by (rule exI)
    then show ?thesis using False b by (simp add: pow2_below_def)
  qed
  then show "pow2_below x \<le> x" and "x < 2 * pow2_below x"
    and "\<exists>i::int. pow2_below x = 2 powr real_of_int i" by blast+
  from * assms show "0 < pow2_below x" by linarith
qed




subsection \<open>Rounding to the nearest integer, ties to even\<close>

lemma round_half_even_range:
  "\<lfloor>y\<rfloor> \<le> round_half_even y" "round_half_even y \<le> \<lfloor>y\<rfloor> + 1"
  by (simp_all add: round_half_even_def Let_def)

lemma round_half_even_near: "\<bar>real_of_int (round_half_even y) - y\<bar> \<le> 1 / 2"
  unfolding round_half_even_def Let_def by (simp; linarith)

lemma round_half_even_int: "round_half_even (real_of_int k) = k"
  by (simp add: round_half_even_def)

lemma round_half_even_mono:
  assumes "y \<le> z"
  shows "round_half_even y \<le> round_half_even z"
proof (cases "\<lfloor>y\<rfloor> = \<lfloor>z\<rfloor>")
  case True
  then have "y - real_of_int \<lfloor>y\<rfloor> \<le> z - real_of_int \<lfloor>z\<rfloor>" using assms by simp
  then show ?thesis using True by (simp add: round_half_even_def Let_def)
next
  case False
  then have "\<lfloor>y\<rfloor> < \<lfloor>z\<rfloor>" using floor_mono[OF assms] by simp
  then have "round_half_even y \<le> \<lfloor>z\<rfloor>" using round_half_even_range(2)[of y] by simp
  then show ?thesis using round_half_even_range(1)[of z] by simp
qed

subsection \<open>Rounding to a double\<close>

lemma fl53_pos_facts:
  assumes "0 < x"
  shows "pow2_below x \<le> fl53_pos x" and "fl53_pos x \<le> 2 * pow2_below x"
    and "\<bar>fl53_pos x - x\<bar> \<le> x / 2 ^ 53"
proof -
  define P where "P = pow2_below x"
  define q where "q = P / 2 ^ 52"
  define m where "m = round_half_even (x / q)"
  have P: "0 < P" "P \<le> x" "x < 2 * P"
    using pow2_below_bounds[OF assms] by (simp_all add: P_def)
  have q: "0 < q" using P by (simp add: q_def)
  have fl: "fl53_pos x = real_of_int m * q"
    by (simp add: fl53_pos_def Let_def m_def q_def P_def)
  have lo: "real_of_int (2 ^ 52) \<le> x / q" using P by (simp add: q_def le_divide_eq)
  have hi: "x / q \<le> real_of_int (2 ^ 53)" using P by (simp add: q_def divide_le_eq)
  have "round_half_even (real_of_int (2 ^ 52)) \<le> m"
    unfolding m_def by (rule round_half_even_mono[OF lo])
  then have mlo: "2 ^ 52 \<le> m" by (simp only: round_half_even_int)
  have "m \<le> round_half_even (real_of_int (2 ^ 53))"
    unfolding m_def by (rule round_half_even_mono[OF hi])
  then have mhi: "m \<le> 2 ^ 53" by (simp only: round_half_even_int)
  have "P = 2 ^ 52 * q" by (simp add: q_def)
  also have "\<dots> \<le> real_of_int m * q"
    using mlo q by (intro mult_right_mono) simp_all
  finally show "pow2_below x \<le> fl53_pos x" by (simp add: fl P_def)
  have "real_of_int m * q \<le> 2 ^ 53 * q"
    using mhi q by (intro mult_right_mono) simp_all
  also have "\<dots> = 2 * P" by (simp add: q_def)
  finally show "fl53_pos x \<le> 2 * pow2_below x" by (simp add: fl P_def)
  have "real_of_int m * q - x = (real_of_int m - x / q) * q"
    using q by (simp add: left_diff_distrib)
  then have "\<bar>real_of_int m * q - x\<bar> = \<bar>real_of_int m - x / q\<bar> * \<bar>q\<bar>"
    by (simp only: abs_mult)
  also have "\<dots> = \<bar>real_of_int m - x / q\<bar> * q" using q by simp
  finally have "\<bar>real_of_int m * q - x\<bar> = \<bar>real_of_int m - x / q\<bar> * q" .
  also have "\<dots> \<le> 1 / 2 * q"
    using round_half_even_near[of "x / q"] q unfolding m_def by (intro mult_right_mono) simp_all
  also have "\<dots> = P / 2 ^ 53" by (simp add: q_def)
  also have "\<dots> \<le> x / 2 ^ 53" using P by (simp add: divide_right_mono)
  finally show "\<bar>fl53_pos x - x\<bar> \<le> x / 2 ^ 53" by (simp add: fl)
qed


lemma fl53_zero: "fl53 0 = 0"
  by (simp add: fl53_def)





lemma fl53_error:
  assumes "0 < x"
  shows "\<bar>fl53 x - x\<bar> \<le> x / 2 ^ 53"
  using fl53_pos_facts(3)[OF assms] assms by (simp add: fl53_def)





text \<open>Evaluating the rounding of a given number.\<close>

lemmas fl53_eval = fl53_def fl53_pos_def pow2_below_def pow2_up.simps pow2_down.simps
  round_half_even_def Let_def

lemma fl53_values:
  "fl53 1 = 1" "fl53 50 = 50" "fl53 100 = 100" "fl53 500 = 500" "fl53 550 = 550"
  "fl53 600 = 600" "fl53 1000 = 1000" "fl53 1100 = 1100" "fl53 1500 = 1500"
  "fl53 1920 = 1920"
  by (simp_all add: fl53_eval)

section \<open>Properties of the retry orchestrator\<close>

subsection \<open>The substring test\<close>

lemma startsWith_iff: "startsWith s p \<longleftrightarrow> (\<exists>b. s = p @ b)"
  by (induction s p rule: startsWith.induct) auto

lemma includes_str_iff: "includes_str s p \<longleftrightarrow> (\<exists>a b. s = a @ p @ b)"
proof (induction s)
  case Nil
  show ?case by auto
next
  case (Cons x s)
  show ?case
  proof
    assume "includes_str (x # s) p"
    then consider "startsWith (x # s) p" | "includes_str s p" by auto
    then show "\<exists>a b. x # s = a @ p @ b"
    proof cases
      case 1
      then obtain b where "x # s = p @ b" using startsWith_iff by blast
      then have "x # s = [] @ p @ b" by simp
      then show ?thesis by blast
    next
      case 2
      then obtain a b where "s = a @ p @ b" using Cons.IH by blast
      then have "x # s = (x # a) @ p @ b" by simp
      then show ?thesis by blast
    qed
  next
    assume "\<exists>a b. x # s = a @ p @ b"
    then obtain a b where ab: "x # s = a @ p @ b" by blast
    show "includes_str (x # s) p"
    proof (cases a)
      case Nil
      then have "startsWith (x # s) p" using ab startsWith_iff[of "x # s" p] by auto
      then show ?thesis by simp
    next
      case (Cons y a')
      then have "s = a' @ p @ b" using ab by simp
      then have "includes_str s p" using Cons.IH by blast
      then show ?thesis by simp
    qed
  qed
qed

subsection \<open>One iteration of the loop\<close>




lemma retryLoop_success:
  assumes "real attempt \<le> maxRetries" and "fn E w = (Inr v, w1)"
  shows "retryLoop E maxRetries baseDelay maxJitter attempt lastError w
           = (Inr v, w1, [Invoked attempt])"
  using assms by (subst retryLoop.simps) simp


lemma retryLoop_retry:
  assumes "real attempt < maxRetries" and "fn E w = (Inl error, w1)" and "retried error"
    and "random E w1 = (r, w2)"
  shows "retryLoop E maxRetries baseDelay maxJitter attempt lastError w
           = (case retryLoop E maxRetries baseDelay maxJitter (Suc attempt) (Thrown error)
                     (sleep E (timeout_arg baseDelay maxJitter attempt r) w2) of
                (out, w4, evs) \<Rightarrow>
                  (out, w4,
                   Invoked attempt #
                   Waited attempt (timeout_arg baseDelay maxJitter attempt r) # evs))"
  using assms
  by (subst retryLoop.simps) (simp add: retried_def timeout_arg_def Let_def)


subsection \<open>The number passed to the timer\<close>


subsection \<open>Invariants of a run\<close>




subsection \<open>The test doubles, evaluated\<close>

lemma fl53_more_values:
  "fl53 25 = 25" "fl53 1025 = 1025" "fl53 (15 / 8) = 15 / 8"
  "fl53 (1 / 5) = 3602879701896397 / 2 ^ 54"
  by (simp_all add: fl53_eval)


lemma timeout_arg_Suc_values:
  "timeout_arg 500 100 (Suc 0) (1 / 2) = 550"
  "timeout_arg 500 100 (Suc (Suc 0)) (1 / 4) = 1025"
  "timeout_arg 500 100 (Suc (Suc 0)) 0 = 1000"
  "timeout_arg 500 100 (Suc 0) (1 - 1 / 2 ^ 52) = 600"
  by (simp_all add: timeout_arg_def fl53_eval)

lemma overloaded_error_retried: "retried (Object overloaded_error)"
  by (simp add: retried_def isAbortError_def overloaded_error_def)


lemma scripted_simps:
  "fn (scripted outcomes) u =
     (case drop (calls u) outcomes of [] \<Rightarrow> Inl (Object overloaded_error) | x # xs \<Rightarrow> x,
      u\<lparr>calls := Suc (calls u)\<rparr>)"
  "random (scripted outcomes) u =
     (case draws u of
        [] \<Rightarrow> (0, u)
      | r # rs \<Rightarrow> (if 0 \<le> r \<and> r < 1 then r else 0, u\<lparr>draws := rs\<rparr>))"
  "sleep (scripted outcomes) ms u = u\<lparr>waited := waited u + ms\<rparr>"
  by (simp_all add: scripted_def)


subsection \<open>Cancellation during a backoff wait\<close>

text \<open>
  Claim C1 says that raising the cancellation token during a backoff wait makes
  \<^verbatim>\<open>retryWithBackoff\<close> settle as cancelled with no further call of the thunk. The code
  does otherwise. In the run below the first request takes 1500 ms and fails with the
  overload error; the backoff wait of 550 ms starts at 1500 with the token not raised;
  the caller raises the token at 1700, during the wait; the wait still ends at 2050,
  with the token raised; the thunk is then invoked a second time, its request runs its
  full 1000 ms (the abort event is past, so its listener never runs), and the run
  resolves with a response at 3050 instead of rejecting with an \<^verbatim>\<open>AbortError\<close>.
\<close>

theorem backoff_wait_ignores_cancellation:
  "fn (browser request0)
      \<lparr>now = 0, abort_at = Some 1700,
       randoms = [1 / 2, 1 / 8, 1 / 2, 0, 7 / 8, 1 / 4, 3 / 8]\<rparr>
     = (Inl (Object overloaded_error),
        \<lparr>now = 1500, abort_at = Some 1700, randoms = [1 / 2, 0, 7 / 8, 1 / 4, 3 / 8]\<rparr>)
   \<and> \<not> signal_aborted
        \<lparr>now = 1500, abort_at = Some 1700, randoms = [0, 7 / 8, 1 / 4, 3 / 8]\<rparr>
   \<and> signal_aborted
        (sleep (browser request0) 550
           \<lparr>now = 1500, abort_at = Some 1700, randoms = [0, 7 / 8, 1 / 4, 3 / 8]\<rparr>)
   \<and> retryWithBackoff (browser request0) 3 500 100
        \<lparr>now = 0, abort_at = Some 1700,
         randoms = [1 / 2, 1 / 8, 1 / 2, 0, 7 / 8, 1 / 4, 3 / 8]\<rparr>
     = (Inr \<lparr>id_parts = (3050, 1 / 4), imageUrl = Some (MOCK_IMAGES ! 1),
             res_prompt = ''warm portrait'', res_style = ''Editorial'', createdAt = 3050\<rparr>,
        \<lparr>now = 3050, abort_at = Some 1700, randoms = []\<rparr>,
        [Invoked 1, Waited 1 550, Invoked 2])"
proof -
  let ?w0 = "\<lparr>now = 0, abort_at = Some 1700,
              randoms = [1 / 2, 1 / 8, 1 / 2, 0, 7 / 8, 1 / 4, 3 / 8]\<rparr>"
  let ?w1 = "\<lparr>now = 1500, abort_at = Some 1700, randoms = [1 / 2, 0, 7 / 8, 1 / 4, 3 / 8]\<rparr>"
  let ?w2 = "\<lparr>now = 1500, abort_at = Some 1700, randoms = [0, 7 / 8, 1 / 4, 3 / 8]\<rparr>"
  let ?w3 = "\<lparr>now = 2050, abort_at = Some 1700, randoms = [0, 7 / 8, 1 / 4, 3 / 8]\<rparr>"
  let ?res = "\<lparr>id_parts = (3050, 1 / 4), imageUrl = Some (MOCK_IMAGES ! 1),
               res_prompt = ''warm portrait'', res_style = ''Editorial'', createdAt = 3050\<rparr>"
  have f1: "fn (browser request0) ?w0 = (Inl (Object overloaded_error), ?w1)"
    by (simp add: browser_def mockApiCall_def Math_random_def fl53_values fl53_more_values)
  have r1: "random (browser request0) ?w1 = (1 / 2, ?w2)"
    by (simp add: browser_def Math_random_def)
  have s0: "sleep (browser request0) 550 ?w2 = ?w3"
    by (simp add: browser_def setTimeout_wait_def)
  have s1: "sleep (browser request0) (timeout_arg 500 100 1 (1 / 2)) ?w2 = ?w3"
    by (simp add: browser_def setTimeout_wait_def timeout_arg_def fl53_eval)
  have f2: "fn (browser request0) ?w3
              = (Inr ?res, \<lparr>now = 3050, abort_at = Some 1700, randoms = []\<rparr>)"
    by (simp add: browser_def mockApiCall_def Math_random_def request0_def MOCK_IMAGES_def
          fl53_values fl53_more_values fl53_zero)
  have l2: "retryLoop (browser request0) 3 500 100 2 (Thrown (Object overloaded_error)) ?w3
              = (Inr ?res, \<lparr>now = 3050, abort_at = Some 1700, randoms = []\<rparr>, [Invoked 2])"
    using retryLoop_success[OF _ f2, of 2 3] by simp
  have run: "retryWithBackoff (browser request0) 3 500 100 ?w0
               = (Inr ?res, \<lparr>now = 3050, abort_at = Some 1700, randoms = []\<rparr>,
                  [Invoked 1, Waited 1 550, Invoked 2])"
    unfolding retryWithBackoff_def
    using retryLoop_retry[of 1 3 "browser request0" ?w0 "Object overloaded_error" ?w1
            "1 / 2" ?w2 500 100 ThrownUndefined] f1 r1 s1 l2 overloaded_error_retried
    by (simp add: eval_nat_numeral timeout_arg_Suc_values)
  have before: "\<not> signal_aborted ?w2" by (simp add: signal_aborted_def)
  have after: "signal_aborted (sleep (browser request0) 550 ?w2)"
    unfolding s0 by (simp add: signal_aborted_def)
  show ?thesis using f1 before after run by blast
qed

subsection \<open>Attempt counts and outcomes\<close>




subsection \<open>Abort errors thrown by the thunk\<close>

text \<open>
  Claim C3: when a call of the thunk rejects with an \<^verbatim>\<open>AbortError\<close> \<^verbatim>\<open>DOMException\<close>, the
  run rejects with that same error at once. At any attempt of the loop the steps end
  with that invocation (no further call of the thunk), the world is the one the call
  left (no draw from the random source, no wait), and this holds whatever the message
  of the error says, so the error is not classified as retryable.
\<close>

theorem abort_error_propagates_immediately:
  assumes "real attempt \<le> maxRetries" and "fn E w = (Inl (Object error), w1)"
    and "isAbortError error"
  shows "retryLoop E maxRetries baseDelay maxJitter attempt lastError w
           = (Inl (Thrown (Object error)), w1, [Invoked attempt])
    \<and> (attempt = 1 \<longrightarrow>
          retryWithBackoff E maxRetries baseDelay maxJitter w
            = (Inl (Thrown (Object error)), w1, [Invoked 1]))"
proof -
  have l: "retryLoop E maxRetries baseDelay maxJitter attempt lastError w
             = (Inl (Thrown (Object error)), w1, [Invoked attempt])" for lastError
    using assms by (subst retryLoop.simps) simp
  show ?thesis using l[of lastError] l[of ThrownUndefined] by (auto simp add: retryWithBackoff_def)
qed

text \<open>The mocked request, aborted by the caller 700 ms into its first attempt.\<close>

theorem abort_error_propagates_immediately_witness:
  "retryWithBackoff (browser request0) 3 500 100
      \<lparr>now = 0, abort_at = Some 700, randoms = [1 / 2]\<rparr>
   = (Inl (Thrown (Object aborted_error)), \<lparr>now = 700, abort_at = Some 700, randoms = []\<rparr>,
      [Invoked 1])"
proof -
  have f: "fn (browser request0) \<lparr>now = 0, abort_at = Some 700, randoms = [1 / 2]\<rparr>
      = (Inl (Object aborted_error), \<lparr>now = 700, abort_at = Some 700, randoms = []\<rparr>)"
    by (simp add: browser_def mockApiCall_def Math_random_def fl53_values)
  have a: "isAbortError aborted_error" by (simp add: isAbortError_def aborted_error_def)
  have le: "real 1 \<le> 3" by simp
  show ?thesis
    using abort_error_propagates_immediately[OF le f a,
            where baseDelay = 500 and maxJitter = 100 and lastError = ThrownUndefined]
    by simp
qed

text \<open>
  Claim C10: the abort check comes before the retryability check. An error that is a
  \<^verbatim>\<open>DOMException\<close> named \<^verbatim>\<open>AbortError\<close> and whose message contains
  \<^verbatim>\<open>Model overloaded\<close> would count as retryable, and is still rethrown at once, with no
  further invocation and no wait, whatever the attempt.
\<close>

theorem abort_check_precedes_retry_check:
  assumes "real attempt \<le> maxRetries" and "fn E w = (Inl (Object error), w1)"
    and "isDOMException error" and "name error = Some ''AbortError''"
    and "message error = Text m" and "includes_str m ''Model overloaded''"
  shows "isRetryableError error
    \<and> retryLoop E maxRetries baseDelay maxJitter attempt lastError w
          = (Inl (Thrown (Object error)), w1, [Invoked attempt])
    \<and> (attempt = 1 \<longrightarrow>
          retryWithBackoff E maxRetries baseDelay maxJitter w
            = (Inl (Thrown (Object error)), w1, [Invoked 1]))"
proof -
  have r: "isRetryableError error" using assms(5,6) by (simp add: isRetryableError_def)
  have a: "isAbortError error" using assms(3,4) by (simp add: isAbortError_def)
  have l: "retryLoop E maxRetries baseDelay maxJitter attempt lastError w
             = (Inl (Thrown (Object error)), w1, [Invoked attempt])" for lastError
    using a assms(1,2) by (subst retryLoop.simps) simp
  show ?thesis
    using r l[of lastError] l[of ThrownUndefined] by (auto simp add: retryWithBackoff_def)
qed

theorem abort_check_precedes_retry_check_witness:
  "isRetryableError overloaded_abort_error \<and>
   retryWithBackoff (scripted [Inl (Object overloaded_abort_error) :: rejection + unit])
      3 500 100 (start [])
     = (Inl (Thrown (Object overloaded_abort_error)), \<lparr>calls = 1, draws = [], waited = 0\<rparr>,
        [Invoked 1])"
proof -
  have f: "fn (scripted [Inl (Object overloaded_abort_error) :: rejection + unit]) (start [])
             = (Inl (Object overloaded_abort_error), \<lparr>calls = 1, draws = [], waited = 0\<rparr>)"
    by (simp add: scripted_simps start_def)
  have m: "message overloaded_abort_error = Text ''Model overloaded while aborting''"
    and d: "isDOMException overloaded_abort_error"
    and n: "name overloaded_abort_error = Some ''AbortError''"
    by (simp_all add: overloaded_abort_error_def)
  have i: "includes_str ''Model overloaded while aborting'' ''Model overloaded''"
    by simp
  have le: "real 1 \<le> 3" by simp
  show ?thesis
    using abort_check_precedes_retry_check[OF le f d n m i,
            where baseDelay = 500 and maxJitter = 100 and lastError = ThrownUndefined]
    by simp
qed

subsection \<open>The backoff schedule\<close>




text \<open>
  The attempt ceiling is a JavaScript number. When it is not whole, say 2.5, attempt 2
  is the last one, is not equal to the ceiling, and is followed by a wait after which
  the loop ends and the last error is thrown: here a wait does follow the final
  attempt.
\<close>

lemma fractional_ceiling_waits_after_last_attempt:
  "retryWithBackoff (scripted ([] :: (rejection + unit) list)) (5 / 2) 500 100
      (start [1 / 2, 1 / 4])
     = (Inl (Thrown (Object overloaded_error)), \<lparr>calls = 2, draws = [], waited = 1575\<rparr>,
        [Invoked 1, Waited 1 550, Invoked 2, Waited 2 1025])"
  by (simp add: retryWithBackoff_def retryLoop.simps scripted_simps start_def
        isAbortError_def overloaded_error_def fl53_values fl53_more_values)

section \<open>Properties of the image preparer\<close>

subsection \<open>Validation\<close>

text \<open>
  Claim C9 says a file is accepted only when its size is under the 10 MiB ceiling. The
  test of the code is \<^verbatim>\<open>file.size > MAX_FILE_SIZE\<close>, so a PNG of exactly 10485760 bytes,
  which is not under the ceiling, is accepted.
\<close>

theorem validate_accepts_size_at_ceiling:
  "matches_image_type (file_type \<lparr>file_type = ''image/png'', file_size = 10485760\<rparr>)
   \<and> \<not> file_size \<lparr>file_type = ''image/png'', file_size = 10485760\<rparr> < MAX_FILE_SIZE
   \<and> validateImageFile \<lparr>file_type = ''image/png'', file_size = 10485760\<rparr> = None"
  by (simp add: validateImageFile_def matches_image_type_def MAX_FILE_SIZE_def)

text \<open>
  Claim C9 as amended: a file is accepted exactly when its declared type is one of
  \<^verbatim>\<open>image/png\<close>, \<^verbatim>\<open>image/jpeg\<close>, \<^verbatim>\<open>image/jpg\<close> and its size is at most 10 MiB
  (10485760 bytes); every other file gets an error message.
\<close>

theorem validateImageFile_accepts_iff:
  "validateImageFile f = None \<longleftrightarrow>
     file_type f \<in> {''image/png'', ''image/jpeg'', ''image/jpg''} \<and> file_size f \<le> 10485760"
proof -
  have allow: "matches_image_type (file_type f)
                 \<longleftrightarrow> file_type f \<in> {''image/png'', ''image/jpeg'', ''image/jpg''}"
    by (auto simp add: matches_image_type_def)
  have ceiling: "file_size f > MAX_FILE_SIZE \<longleftrightarrow> \<not> file_size f \<le> 10485760"
    by (simp add: MAX_FILE_SIZE_def not_le)
  show ?thesis
  proof (cases "matches_image_type (file_type f)")
    case False
    then show ?thesis using allow by (simp add: validateImageFile_def)
  next
    case True
    then show ?thesis using allow ceiling by (simp add: validateImageFile_def)
  qed
qed

theorem validateImageFile_accepts_iff_witness:
  "validateImageFile \<lparr>file_type = ''image/jpeg'', file_size = 2048\<rparr> = None
   \<and> validateImageFile \<lparr>file_type = ''image/gif'', file_size = 2048\<rparr> \<noteq> None
   \<and> validateImageFile \<lparr>file_type = ''image/png'', file_size = 10485761\<rparr> \<noteq> None"
  using validateImageFile_accepts_iff[of "\<lparr>file_type = ''image/jpeg'', file_size = 2048\<rparr>"]
    validateImageFile_accepts_iff[of "\<lparr>file_type = ''image/gif'', file_size = 2048\<rparr>"]
    validateImageFile_accepts_iff[of "\<lparr>file_type = ''image/png'', file_size = 10485761\<rparr>"]
  by simp

subsection \<open>Downscaling\<close>



lemma fl53_pos: assumes "0 < x" shows "0 < fl53 x"
proof -
  have "\<bar>fl53 x - x\<bar> \<le> x / 2 ^ 53" using assms by (rule fl53_error)
  then have "x - x / 2 ^ 53 \<le> fl53 x" by linarith
  moreover have "x / 2 ^ 53 < x" using assms by simp
  ultimately show ?thesis by linarith
qed















section \<open>Properties of the history store\<close>

subsection \<open>Reading\<close>

lemma getHistory_never_throws: "\<exists>v. fst (getHistory s) = Inr v"
  by (simp add: getHistory_def split: prod.splits sum.splits)

lemma getHistory_store:
  "item (snd (getHistory s)) = item s"
  "denied (snd (getHistory s)) = denied s"
  "full (snd (getHistory s)) = full s"
  by (simp_all add: getHistory_def getHistory_try_def getItem_def console_error_def
        split: option.splits sum.splits)

lemma getHistory_empty:
  assumes "denied s \<or> item s = None \<or> item s = Some EmptyText \<or> item s = Some Malformed"
  shows "fst (getHistory s) = Inr (JArr [])"
  using assms
  by (auto simp add: getHistory_def getHistory_try_def getItem_def JSON_parse_def)

lemma getHistory_logs:
  assumes "denied s \<or> item s = Some Malformed"
  shows "console (snd (getHistory s))
           = console s @ [''Failed to load history from localStorage:'']"
  using assms
  by (auto simp add: getHistory_def getHistory_try_def getItem_def JSON_parse_def
        console_error_def)

lemma getHistory_holds:
  assumes "\<not> denied s" and "holds_history s h"
  shows "fst (getHistory s) = Inr (JArr (map toJson h))"
  using assms
  by (auto simp add: getHistory_def getHistory_try_def getItem_def JSON_parse_def
        holds_history_def split: option.splits stored_text.splits)

lemma holds_history_Stringified:
  "item s = Some (Stringified (JArr (map toJson h))) \<Longrightarrow> holds_history s h"
  by (simp add: holds_history_def)

subsection \<open>Filtering by identifier\<close>

lemma id_differs_toJson: "id_differs i (toJson g) = Inr (id_str g \<noteq> i)"
  by (simp add: toJson_def)

lemma filter_items_toJson:
  "filter_items i (map toJson h) = Inr (map toJson (filter (\<lambda>x. id_str x \<noteq> i) h))"
  by (induction h) (simp_all add: id_differs_toJson)

subsection \<open>Writing\<close>

lemma setItem_item:
  "item (snd (setItem t s)) = item s \<or> item (snd (setItem t s)) = Some t"
  by (simp add: setItem_def)

lemma setItem_fails:
  "denied s \<or> full s \<Longrightarrow> \<exists>e. setItem t s = (Inl e, s)"
  by (auto simp add: setItem_def)

lemma saveGeneration_try_item:
  "item (snd (saveGeneration_try g s)) = item s
   \<or> (\<exists>xs. item (snd (saveGeneration_try g s)) = Some (JSON_stringify (JArr xs))
            \<and> length xs \<le> MAX_HISTORY_ITEMS)"
proof -
  obtain r s1 where g: "getHistory s = (r, s1)" by (cases "getHistory s")
  have s1: "item s1 = item s" using getHistory_store(1)[of s] g by simp
  show ?thesis
  proof (cases r)
    case (Inl e)
    then show ?thesis by (simp add: saveGeneration_try_def g s1)
  next
    case (Inr existingHistory)
    show ?thesis
    proof (cases "filter_by_id (id_str g) existingHistory")
      case (Inl e)
      then show ?thesis by (simp add: saveGeneration_try_def g Inr s1)
    next
      case f: (Inr filteredHistory)
      let ?new = "toJson g # take (MAX_HISTORY_ITEMS - 1) filteredHistory"
      have len: "length ?new \<le> MAX_HISTORY_ITEMS" by (simp add: MAX_HISTORY_ITEMS_def)
      have eq: "saveGeneration_try g s = setItem (JSON_stringify (JArr ?new)) s1"
        by (simp add: saveGeneration_try_def g Inr f)
      show ?thesis
        using setItem_item[of "JSON_stringify (JArr ?new)" s1] len unfolding eq s1 by blast
    qed
  qed
qed

lemma saveGeneration_item:
  "item (snd (saveGeneration g s)) = item (snd (saveGeneration_try g s))"
  by (simp add: saveGeneration_def console_error_def split: prod.splits sum.splits)

lemma saveGeneration_never_throws: "fst (saveGeneration g s) = Inr ()"
  by (simp add: saveGeneration_def split: prod.splits sum.splits)

lemma clearHistory_never_throws: "fst (clearHistory s) = Inr ()"
  by (simp add: clearHistory_def split: prod.splits sum.splits)

lemma removeFromHistory_never_throws: "fst (removeFromHistory i s) = Inr ()"
  by (simp add: removeFromHistory_def split: prod.splits sum.splits)

lemma saveGeneration_try_fails:
  assumes "denied s \<or> full s"
  shows "\<exists>e. saveGeneration_try g s = (Inl e, snd (getHistory s))"
proof -
  obtain r s1 where g: "getHistory s = (r, s1)" by (cases "getHistory s")
  have s1: "denied s1 \<or> full s1" using getHistory_store(2,3)[of s] g assms by simp
  show ?thesis
  proof (cases r)
    case (Inl e)
    then show ?thesis by (simp add: saveGeneration_try_def g)
  next
    case (Inr existingHistory)
    show ?thesis
    proof (cases "filter_by_id (id_str g) existingHistory")
      case (Inl e)
      then show ?thesis by (simp add: saveGeneration_try_def g Inr)
    next
      case f: (Inr filteredHistory)
      show ?thesis
        using setItem_fails[OF s1] by (simp add: saveGeneration_try_def g Inr f)
    qed
  qed
qed

lemma saveGeneration_logs:
  assumes "denied s \<or> full s"
  shows "snd (saveGeneration g s)
           = console_error ''Failed to save generation to localStorage:'' (snd (getHistory s))"
  using saveGeneration_try_fails[OF assms, of g] by (auto simp add: saveGeneration_def)

lemma removeFromHistory_try_fails:
  assumes "denied s \<or> full s"
  shows "\<exists>e. removeFromHistory_try i s = (Inl e, snd (getHistory s))"
proof -
  obtain r s1 where g: "getHistory s = (r, s1)" by (cases "getHistory s")
  have s1: "denied s1 \<or> full s1" using getHistory_store(2,3)[of s] g assms by simp
  show ?thesis
  proof (cases r)
    case (Inl e)
    then show ?thesis by (simp add: removeFromHistory_try_def g)
  next
    case (Inr history)
    show ?thesis
    proof (cases "filter_by_id i history")
      case (Inl e)
      then show ?thesis by (simp add: removeFromHistory_try_def g Inr)
    next
      case f: (Inr filteredHistory)
      show ?thesis
        using setItem_fails[OF s1] by (simp add: removeFromHistory_try_def g Inr f)
    qed
  qed
qed

lemma removeFromHistory_logs:
  assumes "denied s \<or> full s"
  shows "snd (removeFromHistory i s)
           = console_error ''Failed to remove item from history:'' (snd (getHistory s))"
  using removeFromHistory_try_fails[OF assms, of i] by (auto simp add: removeFromHistory_def)

lemma clearHistory_logs:
  assumes "denied s"
  shows "snd (clearHistory s) = console_error ''Failed to clear history:'' s"
  using assms by (simp add: clearHistory_def removeItem_def)

text \<open>On a working store that holds a history, the code does what the specification's
  \<open>record\<close> says.\<close>

lemma saveGeneration_holds:
  assumes "\<not> denied s" and "\<not> full s" and "holds_history s h"
  shows "fst (saveGeneration g s) = Inr ()"
    and "item (snd (saveGeneration g s))
           = Some (Stringified (JArr (map toJson (spec_record g h))))"
    and "denied (snd (saveGeneration g s)) = denied s"
    and "full (snd (saveGeneration g s)) = full s"
proof -
  obtain s1 where g: "getHistory s = (Inr (JArr (map toJson h)), s1)"
    and s1: "item s1 = item s" "denied s1 = denied s" "full s1 = full s"
    using getHistory_holds[OF assms(1,3)] getHistory_store[of s]
    by (cases "getHistory s") auto
  have t: "saveGeneration_try g s
             = (Inr (), s1\<lparr>item := Some (Stringified (JArr (map toJson (spec_record g h))))\<rparr>)"
    using assms(1,2) s1
    by (simp add: saveGeneration_try_def g filter_by_id_def filter_items_toJson setItem_def
          JSON_stringify_def MAX_HISTORY_ITEMS_def spec_record_def take_map)
  show "fst (saveGeneration g s) = Inr ()"
    and "item (snd (saveGeneration g s))
           = Some (Stringified (JArr (map toJson (spec_record g h))))"
    and "denied (snd (saveGeneration g s)) = denied s"
    and "full (snd (saveGeneration g s)) = full s"
    using s1 by (simp_all add: saveGeneration_def t)
qed

lemma saveGenerations_holds:
  assumes "\<not> denied s" and "\<not> full s" and "holds_history s h"
  shows "fst (saveGenerations gs s) = Inr () \<and> \<not> denied (snd (saveGenerations gs s))
       \<and> \<not> full (snd (saveGenerations gs s))
       \<and> holds_history (snd (saveGenerations gs s)) (fold spec_record gs h)"
  using assms
proof (induction gs arbitrary: s h)
  case Nil
  then show ?case by simp
next
  case (Cons g gs)
  obtain s1 where sv: "saveGeneration g s = (Inr (), s1)"
    using saveGeneration_holds(1)[OF Cons.prems, of g] by (cases "saveGeneration g s") auto
  have s1: "\<not> denied s1" "\<not> full s1" "holds_history s1 (spec_record g h)"
    using saveGeneration_holds(2,3,4)[OF Cons.prems, of g] Cons.prems sv
    by (simp_all add: holds_history_Stringified)
  show ?case using Cons.IH[OF s1] sv by simp
qed

lemma holds_history_nonempty:
  assumes "holds_history s h" and "h \<noteq> []"
  shows "item s = Some (Stringified (JArr (map toJson h)))"
proof (cases "item s")
  case None
  with assms show ?thesis by (simp add: holds_history_def)
next
  case (Some t)
  with assms show ?thesis by (cases t) (simp_all add: holds_history_def)
qed

lemma spec_record_Cons:
  "spec_record g h = g # take 4 (filter (\<lambda>x. id_str x \<noteq> id_str g) h)"
  by (simp add: spec_record_def)

lemma six_records:
  assumes "distinct (map id_str [g1, g2, g3, g4, g5, g6])"
  shows "fold spec_record [g1, g2, g3, g4, g5, g6] h = [g6, g5, g4, g3, g2]"
proof -
  have d2: "id_str g1 \<noteq> id_str g2"
    and d3: "id_str g1 \<noteq> id_str g3" "id_str g2 \<noteq> id_str g3"
    and d4: "id_str g1 \<noteq> id_str g4" "id_str g2 \<noteq> id_str g4" "id_str g3 \<noteq> id_str g4"
    and d5: "id_str g1 \<noteq> id_str g5" "id_str g2 \<noteq> id_str g5" "id_str g3 \<noteq> id_str g5"
            "id_str g4 \<noteq> id_str g5"
    and d6: "id_str g1 \<noteq> id_str g6" "id_str g2 \<noteq> id_str g6" "id_str g3 \<noteq> id_str g6"
            "id_str g4 \<noteq> id_str g6" "id_str g5 \<noteq> id_str g6"
    using assms by simp_all
  define A where "A = take 4 (filter (\<lambda>x. id_str x \<noteq> id_str g1) h)"
  define B where "B = take 3 (filter (\<lambda>x. id_str x \<noteq> id_str g2) A)"
  define C where "C = take 2 (filter (\<lambda>x. id_str x \<noteq> id_str g3) B)"
  define D where "D = take 1 (filter (\<lambda>x. id_str x \<noteq> id_str g4) C)"
  have r1: "spec_record g1 h = g1 # A"
    by (simp add: spec_record_Cons A_def)
  have r2: "spec_record g2 (g1 # A) = g2 # g1 # B"
    using d2 by (simp add: spec_record_Cons B_def)
  have r3: "spec_record g3 (g2 # g1 # B) = g3 # g2 # g1 # C"
    using d3 by (simp add: spec_record_Cons C_def)
  have r4: "spec_record g4 (g3 # g2 # g1 # C) = g4 # g3 # g2 # g1 # D"
    using d4 by (simp add: spec_record_Cons D_def)
  have r5: "spec_record g5 (g4 # g3 # g2 # g1 # D) = [g5, g4, g3, g2, g1]"
    using d5 by (simp add: spec_record_Cons)
  have r6: "spec_record g6 [g5, g4, g3, g2, g1] = [g6, g5, g4, g3, g2]"
    using d6 by (simp add: spec_record_Cons)
  show ?thesis by (simp add: r1 r2 r3 r4 r5 r6)
qed

lemma resave:
  assumes "id_str g2 = id_str g1"
  shows "spec_record g2 (spec_record g1 h)
           = g2 # take 4 (filter (\<lambda>x. id_str x \<noteq> id_str g2) h)"
proof -
  let ?P = "\<lambda>x. id_str x \<noteq> id_str g2"
  let ?X = "take 4 (filter ?P h)"
  have 1: "spec_record g1 h = g1 # ?X"
    by (simp add: spec_record_Cons assms[symmetric])
  have "\<forall>x \<in> set ?X. ?P x"
    by (auto dest: in_set_takeD)
  then have "filter ?P ?X = ?X"
    by (rule filter_True)
  then have 2: "filter ?P (g1 # ?X) = ?X"
    using assms by simp
  have 3: "spec_record g2 (g1 # ?X) = g2 # take 4 (filter ?P (g1 # ?X))"
    by (rule spec_record_Cons)
  have 4: "take 4 ?X = ?X"
    by simp
  show ?thesis
    unfolding 1 3 2 4 by (rule refl)
qed

lemma saveGeneration_non_array:
  assumes "\<not> denied s" and "item s = Some (Stringified (JObj props))"
  shows "saveGeneration g s
           = (Inr (), console_error ''Failed to save generation to localStorage:'' s)"
  using assms
  by (simp add: saveGeneration_def saveGeneration_try_def getHistory_def getHistory_try_def
        getItem_def JSON_parse_def filter_by_id_def)

lemma console_error_store:
  "item (console_error msg s) = item s"
  "denied (console_error msg s) = denied s"
  "full (console_error msg s) = full s"
  by (simp_all add: console_error_def)

lemma saveGenerations_refused:
  assumes "denied s \<or> full s"
  shows "fst (saveGenerations gs s) = Inr () \<and> item (snd (saveGenerations gs s)) = item s"
  using assms
proof (induction gs arbitrary: s)
  case Nil
  then show ?case by simp
next
  case (Cons g gs)
  let ?s1 = "console_error ''Failed to save generation to localStorage:'' (snd (getHistory s))"
  have sv: "saveGeneration g s = (Inr (), ?s1)"
    using saveGeneration_logs[OF Cons.prems, of g] saveGeneration_never_throws[of g s]
    by (simp add: prod_eq_iff)
  have same: "item ?s1 = item s" "denied ?s1 = denied s" "full ?s1 = full s"
    by (simp_all add: console_error_store getHistory_store)
  then have "denied ?s1 \<or> full ?s1" using Cons.prems by simp
  from Cons.IH[OF this] sv same(1) show ?case by simp
qed

lemma saveGenerations_refused_access:
  assumes "denied s \<or> full s"
  shows "denied (snd (saveGenerations gs s)) = denied s"
  using assms
proof (induction gs arbitrary: s)
  case Nil
  then show ?case by simp
next
  case (Cons g gs)
  let ?s1 = "console_error ''Failed to save generation to localStorage:'' (snd (getHistory s))"
  have sv: "saveGeneration g s = (Inr (), ?s1)"
    using saveGeneration_logs[OF Cons.prems, of g] saveGeneration_never_throws[of g s]
    by (simp add: prod_eq_iff)
  have same: "denied ?s1 = denied s" "full ?s1 = full s"
    by (simp_all add: console_error_store getHistory_store)
  then have "denied ?s1 \<or> full ?s1" using Cons.prems by simp
  from Cons.IH[OF this] sv same(1) show ?case by simp
qed

subsection \<open>The bound of five entries\<close>

text \<open>
  On a store that accepts reads and writes and holds a history (the key absent or not
  parseable counting as the empty history), every call of \<^verbatim>\<open>saveGeneration\<close> stores an
  array of at most 5 entries, and recording 6 entries with distinct identifiers leaves
  exactly the 5 most recently recorded ones, most recent first.
\<close>

lemma six_records_leave_newest_five:
  "(item (snd (saveGeneration g s)) = item s
      \<or> (\<exists>xs. item (snd (saveGeneration g s)) = Some (JSON_stringify (JArr xs))
               \<and> length xs \<le> 5))
   \<and> (\<not> denied s \<and> \<not> full s \<and> holds_history s h
        \<and> distinct (map id_str [g1, g2, g3, g4, g5, g6]) \<longrightarrow>
         fst (saveGenerations [g1, g2, g3, g4, g5, g6] s) = Inr ()
         \<and> item (snd (saveGenerations [g1, g2, g3, g4, g5, g6] s))
             = Some (JSON_stringify (JArr (map toJson [g6, g5, g4, g3, g2])))
         \<and> fst (getHistory (snd (saveGenerations [g1, g2, g3, g4, g5, g6] s)))
             = Inr (JArr (map toJson [g6, g5, g4, g3, g2])))"
proof (intro conjI impI)
  show "item (snd (saveGeneration g s)) = item s
      \<or> (\<exists>xs. item (snd (saveGeneration g s)) = Some (JSON_stringify (JArr xs))
               \<and> length xs \<le> 5)"
    using saveGeneration_try_item[of g s]
    by (simp add: saveGeneration_item MAX_HISTORY_ITEMS_def)
next
  assume a: "\<not> denied s \<and> \<not> full s \<and> holds_history s h
        \<and> distinct (map id_str [g1, g2, g3, g4, g5, g6])"
  let ?s' = "snd (saveGenerations [g1, g2, g3, g4, g5, g6] s)"
  have six: "fold spec_record [g1, g2, g3, g4, g5, g6] h = [g6, g5, g4, g3, g2]"
    using a by (intro six_records) simp
  have r: "fst (saveGenerations [g1, g2, g3, g4, g5, g6] s) = Inr ()"
    and nd: "\<not> denied ?s'" and hh: "holds_history ?s' [g6, g5, g4, g3, g2]"
    using saveGenerations_holds[of s h "[g1, g2, g3, g4, g5, g6]"] a unfolding six
    by simp_all
  show "fst (saveGenerations [g1, g2, g3, g4, g5, g6] s) = Inr ()" by (rule r)
  show "item ?s' = Some (JSON_stringify (JArr (map toJson [g6, g5, g4, g3, g2])))"
    using holds_history_nonempty[OF hh] by (simp add: JSON_stringify_def)
  show "fst (getHistory ?s') = Inr (JArr (map toJson [g6, g5, g4, g3, g2]))"
    by (rule getHistory_holds[OF nd hh])
qed

text \<open>
  Claim C5 says that after recording 6 entries with distinct identifiers exactly 5
  remain, whatever the store held before. The code fails this when the key holds a
  text that parses to something other than an array, such as \<^verbatim>\<open>{}\<close>. \<^verbatim>\<open>getHistory\<close> hands
  the parsed object on without testing that it is an array, its \<^verbatim>\<open>filter\<close> call in
  \<^verbatim>\<open>saveGeneration\<close> throws, the \<^verbatim>\<open>catch\<close> block logs the failure, and nothing is
  written. On a storage that accepts every read and write, each of the six calls
  returns normally and logs one failure, and afterwards the key still holds \<^verbatim>\<open>{}\<close> and
  none of the six entries.
\<close>

theorem history_not_recorded_over_non_array:
  "distinct (map id_str [sample ''1'' ''a'', sample ''2'' ''b'', sample ''3'' ''c'',
                         sample ''4'' ''d'', sample ''5'' ''e'', sample ''6'' ''f''])
   \<and> \<not> denied (empty_store\<lparr>item := Some (Stringified (JObj []))\<rparr>)
   \<and> \<not> full (empty_store\<lparr>item := Some (Stringified (JObj []))\<rparr>)
   \<and> saveGeneration (sample ''1'' ''a'') (empty_store\<lparr>item := Some (Stringified (JObj []))\<rparr>)
       = (Inr (),
          \<lparr>item = Some (Stringified (JObj [])), denied = False, full = False,
           console = [''Failed to save generation to localStorage:'']\<rparr>)
   \<and> fst (saveGenerations
           [sample ''1'' ''a'', sample ''2'' ''b'', sample ''3'' ''c'',
            sample ''4'' ''d'', sample ''5'' ''e'', sample ''6'' ''f'']
           (empty_store\<lparr>item := Some (Stringified (JObj []))\<rparr>)) = Inr ()
   \<and> item (snd (saveGenerations
           [sample ''1'' ''a'', sample ''2'' ''b'', sample ''3'' ''c'',
            sample ''4'' ''d'', sample ''5'' ''e'', sample ''6'' ''f'']
           (empty_store\<lparr>item := Some (Stringified (JObj []))\<rparr>)))
       = Some (Stringified (JObj []))
   \<and> length (console (snd (saveGenerations
           [sample ''1'' ''a'', sample ''2'' ''b'', sample ''3'' ''c'',
            sample ''4'' ''d'', sample ''5'' ''e'', sample ''6'' ''f'']
           (empty_store\<lparr>item := Some (Stringified (JObj []))\<rparr>)))) = 6
   \<and> fst (getHistory (snd (saveGenerations
           [sample ''1'' ''a'', sample ''2'' ''b'', sample ''3'' ''c'',
            sample ''4'' ''d'', sample ''5'' ''e'', sample ''6'' ''f'']
           (empty_store\<lparr>item := Some (Stringified (JObj []))\<rparr>))))
       = Inr (JObj [])"
proof -
  let ?gs = "[sample ''1'' ''a'', sample ''2'' ''b'', sample ''3'' ''c'',
              sample ''4'' ''d'', sample ''5'' ''e'', sample ''6'' ''f'']"
  let ?s = "empty_store\<lparr>item := Some (Stringified (JObj []))\<rparr>"
  have keep: "\<not> denied s \<Longrightarrow> item s = Some (Stringified (JObj [])) \<Longrightarrow>
        fst (saveGenerations gs s) = Inr ()
        \<and> \<not> denied (snd (saveGenerations gs s))
        \<and> item (snd (saveGenerations gs s)) = Some (Stringified (JObj []))
        \<and> length (console (snd (saveGenerations gs s))) = length (console s) + length gs"
    for gs s
  proof (induction gs arbitrary: s)
    case Nil
    then show ?case by simp
  next
    case (Cons g gs)
    let ?s1 = "console_error ''Failed to save generation to localStorage:'' s"
    have sv: "saveGeneration g s = (Inr (), ?s1)"
      using saveGeneration_non_array[OF Cons.prems] .
    have "\<not> denied ?s1" and "item ?s1 = Some (Stringified (JObj []))"
      using Cons.prems by (simp_all add: console_error_store)
    from Cons.IH[OF this] sv show ?case by (simp add: console_error_def)
  qed
  have start: "\<not> denied ?s" "item ?s = Some (Stringified (JObj []))"
    by (simp_all add: empty_store_def)
  note k = keep[OF start, of ?gs]
  have d: "distinct (map id_str ?gs)" by (simp add: sample_def)
  have nf: "\<not> full ?s" by (simp add: empty_store_def)
  have one: "saveGeneration (sample ''1'' ''a'') ?s
       = (Inr (),
          \<lparr>item = Some (Stringified (JObj [])), denied = False, full = False,
           console = [''Failed to save generation to localStorage:'']\<rparr>)"
    using saveGeneration_non_array[OF start, of "sample ''1'' ''a''"]
    by (simp add: console_error_def empty_store_def)
  have c: "length (console (snd (saveGenerations ?gs ?s))) = 6"
    using k by (simp add: empty_store_def)
  have g: "fst (getHistory (snd (saveGenerations ?gs ?s))) = Inr (JObj [])"
    using k by (simp add: getHistory_def getHistory_try_def getItem_def JSON_parse_def)
  show ?thesis using d start(1) nf one k c g by (intro conjI) simp_all
qed

subsection \<open>Recording an identifier again\<close>

text \<open>
  Claim C6 says that recording an identifier twice leaves one entry for it, with the
  second payload, at the front, for every stored history. When the quota of the
  storage is used up every write is refused, \<^verbatim>\<open>saveGeneration\<close> absorbs the failure and
  the history stays as it was: over a stored history that holds the entry \<^verbatim>\<open>2\<close> with the
  prompt \<^verbatim>\<open>b\<close>, recording \<^verbatim>\<open>2\<close> with \<^verbatim>\<open>old\<close> and then with \<^verbatim>\<open>new\<close> leaves the entry with \<^verbatim>\<open>b\<close>,
  which is not the second payload.
\<close>

theorem resave_refused_on_full_storage:
  "id_str (sample ''2'' ''new'') = id_str (sample ''2'' ''old'')
   \<and> sample ''2'' ''new'' \<noteq> sample ''2'' ''old''
   \<and> holds_history
        (empty_store\<lparr>item := Some (Stringified (JArr (map toJson [sample ''2'' ''b'']))),
                     full := True\<rparr>)
        [sample ''2'' ''b'']
   \<and> fst (saveGenerations [sample ''2'' ''old'', sample ''2'' ''new'']
        (empty_store\<lparr>item := Some (Stringified (JArr (map toJson [sample ''2'' ''b'']))),
                     full := True\<rparr>)) = Inr ()
   \<and> fst (getHistory (snd (saveGenerations [sample ''2'' ''old'', sample ''2'' ''new'']
        (empty_store\<lparr>item := Some (Stringified (JArr (map toJson [sample ''2'' ''b'']))),
                     full := True\<rparr>))))
       = Inr (JArr [toJson (sample ''2'' ''b'')])
   \<and> toJson (sample ''2'' ''b'') \<noteq> toJson (sample ''2'' ''new'')"
proof -
  let ?s = "empty_store\<lparr>item := Some (Stringified (JArr (map toJson [sample ''2'' ''b'']))),
                        full := True\<rparr>"
  let ?gs = "[sample ''2'' ''old'', sample ''2'' ''new'']"
  have r: "fst (saveGenerations ?gs ?s) = Inr ()"
    and i: "item (snd (saveGenerations ?gs ?s)) = item ?s"
    using saveGenerations_refused[of ?s ?gs] by (simp_all add: empty_store_def)
  have d: "denied (snd (saveGenerations ?gs ?s)) = denied ?s"
    by (rule saveGenerations_refused_access) (simp add: empty_store_def)
  have g: "fst (getHistory (snd (saveGenerations ?gs ?s)))
             = Inr (JArr [toJson (sample ''2'' ''b'')])"
    using i d
    by (simp add: getHistory_def getHistory_try_def getItem_def JSON_parse_def
          empty_store_def)
  have h: "holds_history ?s [sample ''2'' ''b'']"
    by (simp add: holds_history_def empty_store_def)
  have n: "toJson (sample ''2'' ''b'') \<noteq> toJson (sample ''2'' ''new'')"
    "sample ''2'' ''new'' \<noteq> sample ''2'' ''old''"
    "id_str (sample ''2'' ''new'') = id_str (sample ''2'' ''old'')"
    by (simp_all add: toJson_def sample_def)
  show ?thesis using n h r g by (intro conjI)
qed

text \<open>
  Claim C6 as amended, on a storage that accepts reads and writes: for every stored
  history \<open>h\<close> and entries \<open>g1\<close>, \<open>g2\<close> with the same identifier, recording \<open>g1\<close> and then
  \<open>g2\<close> leaves the history \<open>g2\<close> followed by the first four entries of \<open>h\<close> that carry
  another identifier. In it \<open>g2\<close>, the second payload, is at the front and is the only
  entry with that identifier.
\<close>

theorem resave_replaces_entry:
  assumes "\<not> denied s" and "\<not> full s" and "holds_history s h"
    and "id_str g2 = id_str g1"
  shows "fst (saveGenerations [g1, g2] s) = Inr ()
    \<and> fst (getHistory (snd (saveGenerations [g1, g2] s)))
        = Inr (JArr (map toJson (g2 # take 4 (filter (\<lambda>x. id_str x \<noteq> id_str g2) h))))
    \<and> hd (g2 # take 4 (filter (\<lambda>x. id_str x \<noteq> id_str g2) h)) = g2
    \<and> filter (\<lambda>x. id_str x = id_str g2)
         (g2 # take 4 (filter (\<lambda>x. id_str x \<noteq> id_str g2) h)) = [g2]"
proof -
  let ?h2 = "g2 # take 4 (filter (\<lambda>x. id_str x \<noteq> id_str g2) h)"
  let ?s' = "snd (saveGenerations [g1, g2] s)"
  have two: "fold spec_record [g1, g2] h = ?h2"
    using resave[OF assms(4), of h] by simp
  have r: "fst (saveGenerations [g1, g2] s) = Inr ()"
    and nd: "\<not> denied ?s'" and hh: "holds_history ?s' ?h2"
    using saveGenerations_holds[OF assms(1,2,3), of "[g1, g2]"] unfolding two by simp_all
  have "\<forall>x \<in> set (take 4 (filter (\<lambda>x. id_str x \<noteq> id_str g2) h)).
          \<not> id_str x = id_str g2"
    by (auto dest: in_set_takeD)
  then have "filter (\<lambda>x. id_str x = id_str g2)
               (take 4 (filter (\<lambda>x. id_str x \<noteq> id_str g2) h)) = []"
    by (rule filter_False)
  then have one: "filter (\<lambda>x. id_str x = id_str g2) ?h2 = [g2]"
    by simp
  have front: "hd ?h2 = g2" by simp
  show ?thesis
    using r getHistory_holds[OF nd hh] one front by (intro conjI)
qed

text \<open>An entry recorded again with another prompt, over a history of three.\<close>

theorem resave_replaces_entry_witness:
  "fst (getHistory (snd (saveGenerations [sample ''2'' ''old'', sample ''2'' ''new'']
      (empty_store\<lparr>item := Some (Stringified (JArr (map toJson
          [sample ''1'' ''a'', sample ''2'' ''b'', sample ''3'' ''c''])))\<rparr>))))
   = Inr (JArr (map toJson [sample ''2'' ''new'', sample ''1'' ''a'', sample ''3'' ''c'']))"
proof -
  let ?h = "[sample ''1'' ''a'', sample ''2'' ''b'', sample ''3'' ''c'']"
  let ?s = "empty_store\<lparr>item := Some (Stringified (JArr (map toJson ?h)))\<rparr>"
  have nd: "\<not> denied ?s" and nf: "\<not> full ?s" and hh: "holds_history ?s ?h"
    by (simp_all add: empty_store_def holds_history_def)
  have same: "id_str (sample ''2'' ''new'') = id_str (sample ''2'' ''old'')"
    by (simp add: sample_def)
  have l: "sample ''2'' ''new'' # take 4 (filter (\<lambda>x. id_str x \<noteq> id_str (sample ''2'' ''new'')) ?h)
           = [sample ''2'' ''new'', sample ''1'' ''a'', sample ''3'' ''c'']"
    by (simp add: sample_def)
  show ?thesis
    using resave_replaces_entry[OF nd nf hh same] unfolding l by blast
qed

subsection \<open>Failures of the storage layer\<close>

text \<open>
  Claim C7. No operation of the history store throws, whatever the store. \<^verbatim>\<open>getHistory\<close>
  returns the empty list when access is refused, the key is absent, or its text is
  empty or does not parse, and logs the failure when there was one. When the storage
  refuses the access or the write, \<^verbatim>\<open>saveGeneration\<close>, \<^verbatim>\<open>removeFromHistory\<close> and
  \<^verbatim>\<open>clearHistory\<close> log their failure after what reading the history logged and leave the
  stored text as it was.
\<close>

theorem storage_failures_absorbed:
  "(\<exists>v. fst (getHistory s) = Inr v)
   \<and> fst (saveGeneration g s) = Inr ()
   \<and> fst (clearHistory s) = Inr ()
   \<and> fst (removeFromHistory i s) = Inr ()
   \<and> (denied s \<or> item s = None \<or> item s = Some EmptyText \<or> item s = Some Malformed \<longrightarrow>
        fst (getHistory s) = Inr (JArr []))
   \<and> (denied s \<or> item s = Some Malformed \<longrightarrow>
        console (snd (getHistory s))
          = console s @ [''Failed to load history from localStorage:''])
   \<and> (denied s \<or> full s \<longrightarrow>
        snd (saveGeneration g s)
          = console_error ''Failed to save generation to localStorage:'' (snd (getHistory s))
        \<and> item (snd (saveGeneration g s)) = item s)
   \<and> (denied s \<or> full s \<longrightarrow>
        snd (removeFromHistory i s)
          = console_error ''Failed to remove item from history:'' (snd (getHistory s))
        \<and> item (snd (removeFromHistory i s)) = item s)
   \<and> (denied s \<longrightarrow> snd (clearHistory s) = console_error ''Failed to clear history:'' s)"
proof (intro conjI impI)
  show "\<exists>v. fst (getHistory s) = Inr v" by (rule getHistory_never_throws)
  show "fst (saveGeneration g s) = Inr ()" by (rule saveGeneration_never_throws)
  show "fst (clearHistory s) = Inr ()" by (rule clearHistory_never_throws)
  show "fst (removeFromHistory i s) = Inr ()" by (rule removeFromHistory_never_throws)
next
  assume "denied s \<or> item s = None \<or> item s = Some EmptyText \<or> item s = Some Malformed"
  then show "fst (getHistory s) = Inr (JArr [])" by (rule getHistory_empty)
next
  assume "denied s \<or> item s = Some Malformed"
  then show "console (snd (getHistory s))
               = console s @ [''Failed to load history from localStorage:'']"
    by (rule getHistory_logs)
next
  assume a: "denied s \<or> full s"
  show l: "snd (saveGeneration g s)
          = console_error ''Failed to save generation to localStorage:'' (snd (getHistory s))"
    by (rule saveGeneration_logs[OF a])
  show "item (snd (saveGeneration g s)) = item s"
    unfolding l by (simp add: console_error_store getHistory_store)
next
  assume a: "denied s \<or> full s"
  show l: "snd (removeFromHistory i s)
          = console_error ''Failed to remove item from history:'' (snd (getHistory s))"
    by (rule removeFromHistory_logs[OF a])
  show "item (snd (removeFromHistory i s)) = item s"
    unfolding l by (simp add: console_error_store getHistory_store)
next
  assume "denied s"
  then show "snd (clearHistory s) = console_error ''Failed to clear history:'' s"
    by (rule clearHistory_logs)
qed

text \<open>A store whose access is refused, and a store whose text does not parse and whose
  quota is used up.\<close>

theorem storage_failures_absorbed_witness:
  "fst (getHistory (empty_store\<lparr>denied := True\<rparr>)) = Inr (JArr [])
   \<and> saveGeneration (sample ''1'' ''a'') (empty_store\<lparr>denied := True\<rparr>)
       = (Inr (), empty_store\<lparr>denied := True,
                    console := [''Failed to load history from localStorage:'',
                                ''Failed to save generation to localStorage:'']\<rparr>)
   \<and> clearHistory (empty_store\<lparr>denied := True\<rparr>)
       = (Inr (), empty_store\<lparr>denied := True, console := [''Failed to clear history:'']\<rparr>)
   \<and> removeFromHistory ''1'' (empty_store\<lparr>item := Some Malformed, full := True\<rparr>)
       = (Inr (), empty_store\<lparr>item := Some Malformed, full := True,
                    console := [''Failed to load history from localStorage:'',
                                ''Failed to remove item from history:'']\<rparr>)"
proof -
  let ?d = "empty_store\<lparr>denied := True\<rparr>"
  let ?m = "empty_store\<lparr>item := Some Malformed, full := True\<rparr>"
  have d: "denied ?d" and m: "item ?m = Some Malformed" "full ?m"
    by (simp_all add: empty_store_def)
  note td = storage_failures_absorbed[of ?d "sample ''1'' ''a''" "''1''"]
  note tm = storage_failures_absorbed[of ?m "sample ''1'' ''a''" "''1''"]
  have gd: "snd (getHistory ?d)
      = empty_store\<lparr>denied := True, console := [''Failed to load history from localStorage:'']\<rparr>"
    by (simp add: getHistory_def getHistory_try_def getItem_def console_error_def
          empty_store_def)
  have gm: "snd (getHistory ?m)
      = empty_store\<lparr>item := Some Malformed, full := True,
                     console := [''Failed to load history from localStorage:'']\<rparr>"
    by (simp add: getHistory_def getHistory_try_def getItem_def console_error_def
          empty_store_def JSON_parse_def)
  have 1: "fst (getHistory ?d) = Inr (JArr [])" using td d by blast
  have 2: "saveGeneration (sample ''1'' ''a'') ?d
       = (Inr (), empty_store\<lparr>denied := True,
                    console := [''Failed to load history from localStorage:'',
                                ''Failed to save generation to localStorage:'']\<rparr>)"
  proof -
    have "fst (saveGeneration (sample ''1'' ''a'') ?d) = Inr ()" using td by blast
    moreover have "snd (saveGeneration (sample ''1'' ''a'') ?d)
        = console_error ''Failed to save generation to localStorage:'' (snd (getHistory ?d))"
      using td d by blast
    ultimately show ?thesis
      unfolding gd by (simp add: prod_eq_iff console_error_def empty_store_def)
  qed
  have 3: "clearHistory ?d
       = (Inr (), empty_store\<lparr>denied := True, console := [''Failed to clear history:'']\<rparr>)"
  proof -
    have "fst (clearHistory ?d) = Inr ()" using td by blast
    moreover have "snd (clearHistory ?d) = console_error ''Failed to clear history:'' ?d"
      using td d by blast
    ultimately show ?thesis
      by (simp add: prod_eq_iff console_error_def empty_store_def)
  qed
  have 4: "removeFromHistory ''1'' ?m
       = (Inr (), empty_store\<lparr>item := Some Malformed, full := True,
                    console := [''Failed to load history from localStorage:'',
                                ''Failed to remove item from history:'']\<rparr>)"
  proof -
    have "fst (removeFromHistory ''1'' ?m) = Inr ()" using tm by blast
    moreover have "snd (removeFromHistory ''1'' ?m)
        = console_error ''Failed to remove item from history:'' (snd (getHistory ?m))"
      using tm m by blast
    ultimately show ?thesis
      unfolding gm by (simp add: prod_eq_iff console_error_def empty_store_def)
  qed
  show ?thesis using 1 2 3 4 by blast
qed

end
